theory Spec2Isabelle
  imports Main
begin

section \<open>Values, metadata and the stored entry\<close>

text \<open>
  The service (\<^verbatim>\<open>src/main.py\<close>) is a set of REST handlers over one process-wide
  ChromaDB collection (\<^verbatim>\<open>registry_collection\<close> of \<^verbatim>\<open>src/app/database.py\<close>) and one
  embedding model. Request bodies are JSON: a \<^verbatim>\<open>Dict[str, Any]\<close> of
  \<^verbatim>\<open>src/app/models.py\<close> is an association list of keys and JSON values. Numbers are
  integers here; a float is never inspected by the handlers and would behave as \<open>JInt\<close>
  does wherever a value is only tested for being a given string.
\<close>

datatype json =
    JNull
  | JBool bool
  | JInt int
  | JStr string
  | JArr "json list"
  | JObj "(string \<times> json) list"

type_synonym py_dict = "(string \<times> json) list"

text \<open>
  One stored record of the collection: id, document text, optional metadata and the
  embedding. The embedding type \<open>'e\<close> is left open: the vectors come from the
  SentenceTransformer model, which the handlers only pass on.
\<close>

record 'e entry =
  entry_id :: string
  entry_document :: string
  entry_metadata :: "py_dict option"
  entry_embedding :: 'e

type_synonym 'e collection = "'e entry list"

definition ids_of :: "'e collection \<Rightarrow> string list" where
  "ids_of c = map entry_id c"

text \<open>The store keeps at most one record per id.\<close>

definition wf_collection :: "'e collection \<Rightarrow> bool" where
  "wf_collection c = distinct (ids_of c)"

section \<open>The vector collection\<close>

text \<open>
  The collection is ChromaDB's, an external library; the handlers call \<^verbatim>\<open>count\<close>,
  \<^verbatim>\<open>get\<close>, \<^verbatim>\<open>delete\<close>, \<^verbatim>\<open>add\<close> and \<^verbatim>\<open>query\<close> on it. Its operations are
  modelled on a list of records in insertion order, after section 4.3 of the
  specification (delete of a missing id is a no-op, upsert replaces the record with the
  same id, a query returns up to k records in ascending distance). Two behaviours of
  the library that section 4.3 does not fix are parameters of the model:
  how \<^verbatim>\<open>$ne\<close> treats a record that lacks the key, and what \<^verbatim>\<open>add\<close> does with an id
  that is already stored.
\<close>

definition coll_count :: "'e collection \<Rightarrow> nat" where
  "coll_count c = length c"

definition coll_get :: "string list \<Rightarrow> 'e collection \<Rightarrow> 'e collection" where
  "coll_get ids c = filter (\<lambda>e. entry_id e \<in> set ids) c"

definition coll_delete :: "string list \<Rightarrow> 'e collection \<Rightarrow> 'e collection" where
  "coll_delete ids c = filter (\<lambda>e. entry_id e \<notin> set ids) c"

definition coll_delete_where :: "(py_dict option \<Rightarrow> bool) \<Rightarrow> 'e collection \<Rightarrow> 'e collection" where
  "coll_delete_where p c = filter (\<lambda>e. \<not> p (entry_metadata e)) c"

text \<open>
  The filter \<^verbatim>\<open>{key: {"$ne": v}}\<close> for a string \<open>v\<close>. ChromaDB releases differ on a
  record that has no such key (or no metadata at all): the earlier SQL filter joins on
  the key and compares the string column, so the record must carry the key with a
  string value other than \<open>v\<close>; the later one is the complement of \<^verbatim>\<open>$eq\<close>, so every
  record that does not carry \<open>v\<close> under the key matches.
\<close>

datatype ne_semantics = Ne_requires_key | Ne_complements_eq

fun where_ne :: "ne_semantics \<Rightarrow> string \<Rightarrow> string \<Rightarrow> py_dict option \<Rightarrow> bool" where
  "where_ne Ne_requires_key k v None = False"
| "where_ne Ne_requires_key k v (Some m) =
     (case map_of m k of Some (JStr t) \<Rightarrow> t \<noteq> v | _ \<Rightarrow> False)"
| "where_ne Ne_complements_eq k v None = True"
| "where_ne Ne_complements_eq k v (Some m) = (map_of m k \<noteq> Some (JStr v))"

definition coll_upsert :: "'e entry \<Rightarrow> 'e collection \<Rightarrow> 'e collection" where
  "coll_upsert e c =
     (if entry_id e \<in> set (ids_of c)
      then map (\<lambda>x. if entry_id x = entry_id e then e else x) c
      else c @ [e])"

text \<open>
  \<^verbatim>\<open>Collection.add\<close> validates the metadata first (a non-empty dict of scalar values,
  or none) and raises on anything else. On an id that is already stored the library
  either skips the record and returns normally, or raises.
\<close>

datatype add_policy = Add_ignores_existing | Add_raises_on_existing

datatype store_exn = InvalidMetadata | IDAlreadyExists | InvalidNResults

fun is_scalar :: "json \<Rightarrow> bool" where
  "is_scalar (JBool b) = True"
| "is_scalar (JInt i) = True"
| "is_scalar (JStr s) = True"
| "is_scalar v = False"

definition valid_metadata :: "py_dict option \<Rightarrow> bool" where
  "valid_metadata md =
     (case md of None \<Rightarrow> True | Some m \<Rightarrow> m \<noteq> [] \<and> list_all (\<lambda>kv. is_scalar (snd kv)) m)"

definition coll_add :: "add_policy \<Rightarrow> 'e entry \<Rightarrow> 'e collection \<Rightarrow> store_exn + 'e collection" where
  "coll_add pol e c =
     (if \<not> valid_metadata (entry_metadata e) then Inl InvalidMetadata
      else if entry_id e \<in> set (ids_of c)
      then (case pol of Add_ignores_existing \<Rightarrow> Inr c | Add_raises_on_existing \<Rightarrow> Inl IDAlreadyExists)
      else Inr (c @ [e]))"

text \<open>
  The k nearest neighbours: the records in ascending distance from the query embedding
  (a stable sort, so ties keep the store's order), cut to \<open>k\<close>, each as
  (document, metadata, distance). The distance is any linearly ordered value.
\<close>

definition coll_knn ::
  "('e \<Rightarrow> 'e \<Rightarrow> 'd::linorder) \<Rightarrow> 'e \<Rightarrow> nat \<Rightarrow> 'e collection \<Rightarrow> (string \<times> py_dict option \<times> 'd) list" where
  "coll_knn dist q k c =
     map (\<lambda>e. (entry_document e, entry_metadata e, dist q (entry_embedding e)))
       (take k (sort_key (\<lambda>e. dist q (entry_embedding e)) c))"

text \<open>
  \<^verbatim>\<open>Collection.query\<close> takes \<^verbatim>\<open>n_results\<close> as the integer it is given and raises when
  it is not positive; otherwise it answers with the neighbours.
\<close>

definition coll_query ::
  "('e \<Rightarrow> 'e \<Rightarrow> 'd::linorder) \<Rightarrow> 'e \<Rightarrow> int \<Rightarrow> 'e collection \<Rightarrow> store_exn + (string \<times> py_dict option \<times> 'd) list" where
  "coll_query dist q n c =
     (if n \<le> 0 then Inl InvalidNResults else Inr (coll_knn dist q (nat n) c))"

section \<open>Request and response models (src/app/models.py)\<close>

datatype http_error = HTTP_404 | HTTP_422 | HTTP_500

record QueryRequest =
  query :: string
  n_results :: int

record 'd QueryResult =
  document :: string
  metadata :: py_dict
  distance :: 'd

record 'd QueryResponse =
  resp_query :: string
  results :: "'d QueryResult list"

record AddDocumentRequest =
  req_id :: string
  req_document :: string
  req_metadata :: "py_dict option"

record TableSchemaRequest =
  table_schema :: py_dict

text \<open>
  \<^verbatim>\<open>QueryRequest\<close>: \<^verbatim>\<open>query: str\<close> is required with no length constraint;
  \<^verbatim>\<open>n_results\<close> defaults to 3 and must satisfy \<^verbatim>\<open>ge=1, le=20\<close>. FastAPI answers a
  body that fails validation with status 422 before the handler runs.
\<close>

definition QueryRequest_validate :: "string \<Rightarrow> int option \<Rightarrow> http_error + QueryRequest" where
  "QueryRequest_validate q nr =
     (let n = (case nr of None \<Rightarrow> 3 | Some n \<Rightarrow> n)
      in if 1 \<le> n \<and> n \<le> 20 then Inr \<lparr>query = q, n_results = n\<rparr> else Inl HTTP_422)"

text \<open>
  \<^verbatim>\<open>QueryResult\<close> declares \<^verbatim>\<open>metadata: Dict[str, Any]\<close>, not optional: building it
  from a record whose metadata is \<^verbatim>\<open>None\<close> raises a validation error.
\<close>

definition QueryResult_validate :: "string \<times> py_dict option \<times> 'd \<Rightarrow> 'd QueryResult option" where
  "QueryResult_validate r =
     (case r of (doc, md, d) \<Rightarrow>
        (case md of None \<Rightarrow> None
         | Some m \<Rightarrow> Some \<lparr>document = doc, metadata = m, distance = d\<rparr>))"

section \<open>The handlers (src/main.py)\<close>

text \<open>
  Each handler takes the collection and returns its response together with the
  collection afterwards; a handler that only reads returns the response alone. Every
  handler wraps its body in \<^verbatim>\<open>try ... except Exception\<close> and answers status 500 on
  any exception. The human-readable \<^verbatim>\<open>message\<close> field of a response is left out.
\<close>

definition table_id :: "string \<Rightarrow> string" where
  "table_id table_name = ''table_'' @ table_name"

definition delete_table :: "string \<Rightarrow> 'e collection \<Rightarrow> (http_error + string) \<times> 'e collection" where
  "delete_table table_name c = (Inr table_name, coll_delete [table_id table_name] c)"

definition delete_document :: "string \<Rightarrow> 'e collection \<Rightarrow> (http_error + string) \<times> 'e collection" where
  "delete_document doc_id c = (Inr doc_id, coll_delete [doc_id] c)"

definition get_document :: "string \<Rightarrow> 'e collection \<Rightarrow> http_error + (string \<times> string \<times> py_dict option)" where
  "get_document doc_id c =
     (case coll_get [doc_id] c of
        [] \<Rightarrow> Inl HTTP_404
      | e # _ \<Rightarrow> Inr (doc_id, entry_document e, entry_metadata e))"

text \<open>
  \<^verbatim>\<open>add_document\<close> passes \<^verbatim>\<open>[request.metadata] if request.metadata else None\<close>: the
  metadata goes to the store only when it is truthy, so an empty dict is stored as no
  metadata.
\<close>

definition truthy_metadata :: "py_dict option \<Rightarrow> py_dict option" where
  "truthy_metadata md = (case md of None \<Rightarrow> None | Some m \<Rightarrow> if m = [] then None else Some m)"

definition add_document ::
  "add_policy \<Rightarrow> (string \<Rightarrow> 'e) \<Rightarrow> AddDocumentRequest \<Rightarrow> 'e collection \<Rightarrow> (http_error + string) \<times> 'e collection" where
  "add_document pol embedding_model request c =
     (let embedding = embedding_model (req_document request)
      in case coll_add pol
                \<lparr>entry_id = req_id request, entry_document = req_document request,
                 entry_metadata = truthy_metadata (req_metadata request),
                 entry_embedding = embedding\<rparr> c of
           Inl exn \<Rightarrow> (Inl HTTP_500, c)
         | Inr c' \<Rightarrow> (Inr (req_id request), c'))"

text \<open>
  \<^verbatim>\<open>query_registry\<close>: embed the query text, ask the store for \<^verbatim>\<open>n_results\<close> neighbours,
  zip documents, metadatas and distances into \<^verbatim>\<open>QueryResult\<close>s. There is no check of
  the text or of \<^verbatim>\<open>n_results\<close> in the handler: \<^verbatim>\<open>n_results\<close> goes to the store
  unchanged, and an exception of the store is answered with status 500.
\<close>

definition query_registry ::
  "(string \<Rightarrow> 'e) \<Rightarrow> ('e \<Rightarrow> 'e \<Rightarrow> 'd::linorder) \<Rightarrow> QueryRequest \<Rightarrow> 'e collection \<Rightarrow> http_error + 'd QueryResponse" where
  "query_registry embedding_model dist request c =
     (let query_embedding = embedding_model (query request)
      in case coll_query dist query_embedding (n_results request) c of
           Inl exn \<Rightarrow> Inl HTTP_500
         | Inr rs \<Rightarrow>
             (case those (map QueryResult_validate rs) of
                None \<Rightarrow> Inl HTTP_500
              | Some out \<Rightarrow> Inr \<lparr>resp_query = query request, results = out\<rparr>))"

text \<open>The route \<^verbatim>\<open>POST /query\<close>: body validation, then the handler.\<close>

definition post_query ::
  "(string \<Rightarrow> 'e) \<Rightarrow> ('e \<Rightarrow> 'e \<Rightarrow> 'd::linorder) \<Rightarrow> string \<Rightarrow> int option \<Rightarrow> 'e collection \<Rightarrow> http_error + 'd QueryResponse" where
  "post_query embedding_model dist q nr c =
     (case QueryRequest_validate q nr of
        Inl err \<Rightarrow> Inl err
      | Inr request \<Rightarrow> query_registry embedding_model dist request c)"

text \<open>
  \<^verbatim>\<open>reinitialize_registry\<close>: delete where \<^verbatim>\<open>{"table_name": {"$ne": ""}}\<close>, then call
  \<^verbatim>\<open>initialize_registry\<close> (of \<^verbatim>\<open>app/registry.py\<close>, passed in as \<open>init\<close>; it may
  raise or return a success flag), and report the flag and the count.
\<close>

definition reinitialize_registry ::
  "ne_semantics \<Rightarrow> ('e collection \<Rightarrow> ('x + bool) \<times> 'e collection) \<Rightarrow> 'e collection \<Rightarrow> (http_error + (bool \<times> nat)) \<times> 'e collection" where
  "reinitialize_registry sem init c =
     (let c1 = coll_delete_where (where_ne sem ''table_name'' '''') c
      in case init c1 of
           (Inl exn, c2) \<Rightarrow> (Inl HTTP_500, c2)
         | (Inr success, c2) \<Rightarrow> (Inr (success, coll_count c2), c2))"

text \<open>
  \<^verbatim>\<open>add_table\<close>: call \<^verbatim>\<open>add_table_to_registry\<close> (of \<^verbatim>\<open>app/registry.py\<close>, passed in
  as \<open>reg\<close>; it may raise or return a success flag), answer 500 when the flag is false,
  otherwise read \<^verbatim>\<open>table_schema['table_name']\<close> for the response, which raises
  \<^verbatim>\<open>KeyError\<close> when the key is missing. All of it is inside the \<^verbatim>\<open>try\<close>.
\<close>

definition add_table ::
  "(py_dict \<Rightarrow> 'e collection \<Rightarrow> ('x + bool) \<times> 'e collection) \<Rightarrow> TableSchemaRequest \<Rightarrow> 'e collection \<Rightarrow> (http_error + json) \<times> 'e collection" where
  "add_table reg request c =
     (case reg (table_schema request) c of
        (Inl exn, c') \<Rightarrow> (Inl HTTP_500, c')
      | (Inr success, c') \<Rightarrow>
          if \<not> success then (Inl HTTP_500, c')
          else (case map_of (table_schema request) ''table_name'' of
                  None \<Rightarrow> (Inl HTTP_500, c')
                | Some n \<Rightarrow> (Inr n, c')))"

section \<open>The registry manager (app/registry.py)\<close>

text \<open>
  \<^verbatim>\<open>app/registry.py\<close> is imported by \<^verbatim>\<open>src/main.py\<close> but is not among the source files.
  Its three operations used here follow sections 4.1 and 4.4 of the specification.
\<close>

datatype core_error = InvalidSchemaError | InvalidQueryError | EmbeddingError | StoreError

text \<open>
  Modelled from the spec: the document encoder \<^verbatim>\<open>_create_document_from_schema\<close>. It
  fails with \<open>InvalidSchemaError\<close> when the name is missing or empty; otherwise the id
  is \<^verbatim>\<open>"table_" + name\<close>, the text is a fixed rendering of the schema (\<open>render\<close>) and
  the metadata holds \<^verbatim>\<open>table_name\<close> and further flat attributes (\<open>extra\<close>). The name
  is the schema's \<^verbatim>\<open>table_name\<close> key, as \<^verbatim>\<open>add_table\<close> of \<^verbatim>\<open>src/main.py\<close> reads it.
\<close>

definition encode ::
  "(py_dict \<Rightarrow> string) \<Rightarrow> (py_dict \<Rightarrow> py_dict) \<Rightarrow> py_dict \<Rightarrow> core_error + (string \<times> string \<times> py_dict)" where
  "encode render extra s =
     (case map_of s ''table_name'' of
        Some (JStr n) \<Rightarrow>
          if n = [] then Inl InvalidSchemaError
          else Inr (table_id n, render s, (''table_name'', JStr n) # extra s)
      | _ \<Rightarrow> Inl InvalidSchemaError)"

text \<open>
  Modelled from the spec: \<^verbatim>\<open>add_table_to_registry\<close>, that is encode, embed the
  document text, upsert. A failure of the encoder is surfaced and the collection is
  left as it was.
\<close>

definition add_table_to_registry ::
  "(py_dict \<Rightarrow> string) \<Rightarrow> (py_dict \<Rightarrow> py_dict) \<Rightarrow> (string \<Rightarrow> 'e) \<Rightarrow> py_dict \<Rightarrow> 'e collection \<Rightarrow> (core_error + bool) \<times> 'e collection" where
  "add_table_to_registry render extra embedding_model s c =
     (case encode render extra s of
        Inl err \<Rightarrow> (Inl err, c)
      | Inr (i, text, md) \<Rightarrow>
          (Inr True,
           coll_upsert \<lparr>entry_id = i, entry_document = text, entry_metadata = Some md,
                        entry_embedding = embedding_model text\<rparr> c))"

text \<open>The record that a schema named \<open>n\<close> is stored as.\<close>

definition schema_entry ::
  "(py_dict \<Rightarrow> string) \<Rightarrow> (py_dict \<Rightarrow> py_dict) \<Rightarrow> (string \<Rightarrow> 'e) \<Rightarrow> py_dict \<Rightarrow> string \<Rightarrow> 'e entry" where
  "schema_entry render extra embedding_model s n =
     \<lparr>entry_id = table_id n, entry_document = render s,
      entry_metadata = Some ((''table_name'', JStr n) # extra s),
      entry_embedding = embedding_model (render s)\<rparr>"

text \<open>
  Modelled from the spec: \<^verbatim>\<open>initialize_registry\<close> over the canonical schema set
  \<open>canon\<close>. A canonical schema whose id is already stored is skipped, any other is
  encoded, embedded and upserted; the first failure is reported as the flag \<open>False\<close>
  and what was upserted before it stays.
\<close>

fun initialize_registry ::
  "(py_dict \<Rightarrow> string) \<Rightarrow> (py_dict \<Rightarrow> py_dict) \<Rightarrow> (string \<Rightarrow> 'e) \<Rightarrow> py_dict list \<Rightarrow> 'e collection \<Rightarrow> (core_error + bool) \<times> 'e collection" where
  "initialize_registry render extra embedding_model [] c = (Inr True, c)"
| "initialize_registry render extra embedding_model (s # ss) c =
     (case encode render extra s of
        Inl err \<Rightarrow> (Inr False, c)
      | Inr (i, text, md) \<Rightarrow>
          if i \<in> set (ids_of c) then initialize_registry render extra embedding_model ss c
          else initialize_registry render extra embedding_model ss
                 (coll_upsert \<lparr>entry_id = i, entry_document = text, entry_metadata = Some md,
                               entry_embedding = embedding_model text\<rparr> c))"

text \<open>The ids of the canonical schemas that encode.\<close>

definition canonical_ids :: "(py_dict \<Rightarrow> string) \<Rightarrow> (py_dict \<Rightarrow> py_dict) \<Rightarrow> py_dict list \<Rightarrow> string list" where
  "canonical_ids render extra canon =
     concat (map (\<lambda>s. case encode render extra s of Inl err \<Rightarrow> [] | Inr (i, text, md) \<Rightarrow> [i]) canon)"

section \<open>A small instance\<close>

text \<open>
  Concrete stand-ins for the parts the service takes from outside: an embedding (the
  length of the text), a distance (the absolute difference), a renderer, no further
  metadata, and a canonical set of one schema.
\<close>

definition ex_embed :: "string \<Rightarrow> nat" where
  "ex_embed text = length text"

definition ex_dist :: "nat \<Rightarrow> nat \<Rightarrow> nat" where
  "ex_dist a b = (if a \<le> b then b - a else a - b)"

definition ex_render :: "py_dict \<Rightarrow> string" where
  "ex_render s = (case map_of s ''table_name'' of Some (JStr n) \<Rightarrow> n | _ \<Rightarrow> [])"

definition ex_extra :: "py_dict \<Rightarrow> py_dict" where
  "ex_extra s = []"

definition ex_patients_schema :: py_dict where
  "ex_patients_schema = [(''table_name'', JStr ''patients'')]"

definition ex_visits_schema :: py_dict where
  "ex_visits_schema = [(''table_name'', JStr ''visits'')]"

definition ex_canon :: "py_dict list" where
  "ex_canon = [ex_patients_schema]"

definition ex_patients :: "nat entry" where
  "ex_patients =
     \<lparr>entry_id = ''table_patients'', entry_document = ''patients'',
      entry_metadata = Some [(''table_name'', JStr ''patients'')], entry_embedding = 8\<rparr>"

definition ex_visits :: "nat entry" where
  "ex_visits =
     \<lparr>entry_id = ''table_visits'', entry_document = ''visits'',
      entry_metadata = Some [(''table_name'', JStr ''visits'')], entry_embedding = 6\<rparr>"

text \<open>A custom document whose metadata carries an empty \<^verbatim>\<open>table_name\<close>.\<close>

definition ex_note :: "nat entry" where
  "ex_note =
     \<lparr>entry_id = ''note1'', entry_document = ''scratch'',
      entry_metadata = Some [(''table_name'', JStr '''')], entry_embedding = 7\<rparr>"

text \<open>A custom document added with no metadata.\<close>

definition ex_memo :: "nat entry" where
  "ex_memo =
     \<lparr>entry_id = ''memo'', entry_document = ''free text'',
      entry_metadata = None, entry_embedding = 9\<rparr>"

section \<open>Facts about the collection\<close>

lemma coll_delete_absent: "i \<notin> set (ids_of c) \<Longrightarrow> coll_delete [i] c = c"
  by (induction c) (auto simp: coll_delete_def ids_of_def)

lemma coll_get_absent: "i \<notin> set (ids_of c) \<Longrightarrow> coll_get [i] c = []"
  by (induction c) (auto simp: coll_get_def ids_of_def)

lemma get_document_404_iff: "get_document i c = Inl HTTP_404 \<longleftrightarrow> i \<notin> set (ids_of c)"
  by (induction c) (auto simp: get_document_def coll_get_def ids_of_def split: list.splits)

lemma ids_of_upsert:
  "ids_of (coll_upsert e c) =
     (if entry_id e \<in> set (ids_of c) then ids_of c else ids_of c @ [entry_id e])"
  by (induction c) (auto simp: coll_upsert_def ids_of_def)

lemma wf_upsert: "wf_collection c \<Longrightarrow> wf_collection (coll_upsert e c)"
  by (simp add: wf_collection_def ids_of_upsert)

lemma set_upsert_absent:
  "entry_id e \<notin> set (ids_of c) \<Longrightarrow> set (coll_upsert e c) = insert e (set c)"
  by (simp add: coll_upsert_def)

lemma replace_absent:
  "i \<notin> set (ids_of c) \<Longrightarrow> map (\<lambda>x. if entry_id x = i then e' else x) c = c"
  by (induction c) (auto simp: ids_of_def)

text \<open>A second upsert under the same id overwrites the first.\<close>

lemma upsert_upsert:
  assumes "entry_id e' = entry_id e"
  shows "coll_upsert e' (coll_upsert e c) = coll_upsert e' c"
proof (cases "entry_id e \<in> set (ids_of c)")
  case True
  have "entry_id e' \<in> set (ids_of (coll_upsert e c))"
    using True assms by (simp add: ids_of_upsert)
  then have "coll_upsert e' (coll_upsert e c)
      = map (\<lambda>x. if entry_id x = entry_id e' then e' else x)
          (map (\<lambda>x. if entry_id x = entry_id e then e else x) c)"
    using True by (simp add: coll_upsert_def)
  also have "\<dots> = map (\<lambda>x. if entry_id x = entry_id e' then e' else x) c"
    using assms by (simp add: o_def cong: if_cong)
  also have "\<dots> = coll_upsert e' c"
    using True assms by (simp add: coll_upsert_def)
  finally show ?thesis .
next
  case False
  have "entry_id e' \<in> set (ids_of (coll_upsert e c))"
    using False assms by (simp add: ids_of_upsert)
  then have "coll_upsert e' (coll_upsert e c)
      = map (\<lambda>x. if entry_id x = entry_id e' then e' else x) (c @ [e])"
    using False by (simp add: coll_upsert_def)
  also have "\<dots> = c @ [e']"
    using False assms replace_absent[of "entry_id e" c e'] by simp
  also have "\<dots> = coll_upsert e' c"
    using False assms by (simp add: coll_upsert_def)
  finally show ?thesis .
qed

lemma get_upsert:
  "wf_collection c \<Longrightarrow> coll_get [entry_id e] (coll_upsert e c) = [e]"
proof (induction c)
  case Nil
  then show ?case by (simp add: coll_get_def coll_upsert_def ids_of_def)
next
  case (Cons x xs)
  have wf: "wf_collection xs" and nx: "entry_id x \<notin> set (ids_of xs)"
    using Cons.prems by (simp_all add: wf_collection_def ids_of_def)
  show ?case
  proof (cases "entry_id x = entry_id e")
    case True
    then have "coll_upsert e (x # xs) = e # xs"
      using nx replace_absent[of "entry_id e" xs e] by (simp add: coll_upsert_def ids_of_def)
    then show ?thesis
      using nx True coll_get_absent[of "entry_id e" xs] by (simp add: coll_get_def)
  next
    case False
    then have "coll_upsert e (x # xs) = x # coll_upsert e xs"
      by (auto simp: coll_upsert_def ids_of_def)
    then show ?thesis using False Cons.IH[OF wf] by (simp add: coll_get_def)
  qed
qed

section \<open>Deleting by id\<close>

text \<open>
  The ids the encoder produces are of the form the \<^verbatim>\<open>delete_table\<close> handler derives.
\<close>

lemma encode_id_is_table_id:
  "encode render extra s = Inr (i, d, md) \<Longrightarrow>
   \<exists>m. map_of s ''table_name'' = Some (JStr m) \<and> i = table_id m"
  by (auto simp: encode_def split: option.splits json.splits if_splits)

text \<open>
  Claim C3. For every table name \<open>n\<close> the registry id is exactly \<^verbatim>\<open>"table_" + n\<close>, and
  removing the table \<open>n\<close> deletes exactly the record with that id: the handler reports
  success, the collection afterwards is the collection before without the records of
  that id, in the same order, and every other record is still there unchanged.
\<close>

theorem delete_table_exact:
  "table_id n = ''table_'' @ n \<and>
   fst (delete_table n c) = Inr n \<and>
   snd (delete_table n c) = filter (\<lambda>e. entry_id e \<noteq> ''table_'' @ n) c \<and>
   (\<forall>e. e \<in> set (snd (delete_table n c)) \<longleftrightarrow> e \<in> set c \<and> entry_id e \<noteq> ''table_'' @ n) \<and>
   ''table_'' @ n \<notin> set (ids_of (snd (delete_table n c)))"
  by (auto simp: delete_table_def coll_delete_def table_id_def ids_of_def)

theorem delete_table_exact_witness:
  "table_id ''patients'' = ''table_patients'' \<and>
   fst (delete_table ''patients'' [ex_patients, ex_visits, ex_memo]) = Inr ''patients'' \<and>
   snd (delete_table ''patients'' [ex_patients, ex_visits, ex_memo]) = [ex_visits, ex_memo]"
  using delete_table_exact[of "''patients''" "[ex_patients, ex_visits, ex_memo]"]
  by (simp add: ex_patients_def ex_visits_def ex_memo_def)

text \<open>
  Claim C5. Deleting an id that is not in the collection, through \<^verbatim>\<open>delete_table\<close> or
  through \<^verbatim>\<open>delete_document\<close>, reports success and leaves the collection as it was.
\<close>

theorem delete_missing_is_noop:
  "(doc_id \<notin> set (ids_of c) \<longrightarrow> delete_document doc_id c = (Inr doc_id, c)) \<and>
   (table_id n \<notin> set (ids_of c) \<longrightarrow> delete_table n c = (Inr n, c))"
  by (simp add: delete_document_def delete_table_def coll_delete_absent)

theorem delete_missing_is_noop_witness:
  "''ghost'' \<notin> set (ids_of [ex_patients, ex_memo]) \<and>
   delete_document ''ghost'' [ex_patients, ex_memo] = (Inr ''ghost'', [ex_patients, ex_memo]) \<and>
   table_id ''nonexistent'' \<notin> set (ids_of [ex_patients, ex_memo]) \<and>
   delete_table ''nonexistent'' [ex_patients, ex_memo] = (Inr ''nonexistent'', [ex_patients, ex_memo])"
proof -
  have a: "''ghost'' \<notin> set (ids_of [ex_patients, ex_memo])"
    by (simp add: ids_of_def ex_patients_def ex_memo_def)
  have b: "table_id ''nonexistent'' \<notin> set (ids_of [ex_patients, ex_memo])"
    by (simp add: ids_of_def ex_patients_def ex_memo_def table_id_def)
  from a b delete_missing_is_noop[of "''ghost''" "[ex_patients, ex_memo]" "''nonexistent''"]
  show ?thesis by simp
qed

section \<open>Querying\<close>


lemma those_map_validate_None:
  "\<not> list_all (\<lambda>r. fst (snd r) \<noteq> None) rs \<Longrightarrow> those (map QueryResult_validate rs) = None"
  by (induction rs) (auto simp: QueryResult_validate_def split: option.splits)




text \<open>A result count that is not positive makes the store raise: the handler answers 500.\<close>

lemma query_registry_nonpositive:
  "n_results request \<le> 0 \<Longrightarrow> query_registry em dist request c = Inl HTTP_500"
  by (simp add: query_registry_def coll_query_def)


text \<open>A record without metadata among the neighbours makes the handler answer 500.\<close>

lemma query_registry_fails_without_metadata:
  assumes "\<not> list_all (\<lambda>r. fst (snd r) \<noteq> None)
             (coll_knn dist (em (query request)) (nat (n_results request)) c)"
  shows "query_registry em dist request c = Inl HTTP_500"
  by (simp add: query_registry_def coll_query_def Let_def those_map_validate_None[OF assms])

text \<open>
  Claim C2. The claim asks for \<open>min k m\<close> ranked results on every collection. A document
  stored through \<^verbatim>\<open>add_document\<close> with no metadata is a record the store returns with
  metadata \<^verbatim>\<open>None\<close>, which \<^verbatim>\<open>QueryResult\<close> does not accept: on the collection holding
  just that document, the query for one result answers status 500 instead of one result.
\<close>

theorem query_fails_on_document_without_metadata:
  "add_document Add_ignores_existing ex_embed
      \<lparr>req_id = ''memo'', req_document = ''free text'', req_metadata = None\<rparr> []
     = (Inr ''memo'', [ex_memo]) \<and>
   coll_count [ex_memo] = 1 \<and>
   post_query ex_embed ex_dist ''free text'' (Some 1) [ex_memo] = Inl HTTP_500"
  by (simp add: post_query_def QueryRequest_validate_def query_registry_def coll_query_def
      coll_knn_def QueryResult_validate_def ex_memo_def ex_embed_def ex_dist_def add_document_def
      coll_add_def truthy_metadata_def valid_metadata_def ids_of_def coll_count_def)




section \<open>Adding a custom document\<close>

text \<open>
  Claim C10, as stated, fails. \<^verbatim>\<open>src/app/database.py\<close> builds the collection with
  \<^verbatim>\<open>chromadb.PersistentClient\<close>; the library releases that have this client skip a
  record whose id is already stored and return normally. With that store
  \<^verbatim>\<open>add_document\<close> on a stored id answers with success.
\<close>

theorem add_document_existing_id_succeeds:
  "add_document Add_ignores_existing ex_embed
      \<lparr>req_id = ''memo'', req_document = ''other text'', req_metadata = None\<rparr> [ex_memo]
    = (Inr ''memo'', [ex_memo])"
  by (simp add: add_document_def coll_add_def truthy_metadata_def valid_metadata_def
      ex_memo_def ids_of_def)

text \<open>
  Claim C10, amended. \<^verbatim>\<open>add_document\<close> inserts only and never replaces: for an id that
  is already stored, the collection afterwards is the collection before, so the stored
  text, metadata and embedding of that id are unchanged. The call answers with success
  exactly when the store skips a stored id and the metadata is valid, and with status
  500 exactly when the store raises on a stored id or the metadata is invalid.
\<close>

theorem add_document_never_replaces:
  "req_id request \<in> set (ids_of c) \<longrightarrow>
     snd (add_document pol em request c) = c \<and>
     (fst (add_document pol em request c) = Inr (req_id request)
        \<longleftrightarrow> pol = Add_ignores_existing \<and> valid_metadata (truthy_metadata (req_metadata request))) \<and>
     (fst (add_document pol em request c) = Inl HTTP_500
        \<longleftrightarrow> pol = Add_raises_on_existing \<or> \<not> valid_metadata (truthy_metadata (req_metadata request)))"
  by (cases pol) (auto simp: add_document_def coll_add_def Let_def)

theorem add_document_never_replaces_witness:
  "''note1'' \<in> set (ids_of [ex_patients, ex_note]) \<and>
   snd (add_document Add_raises_on_existing ex_embed
          \<lparr>req_id = ''note1'', req_document = ''rewritten'', req_metadata = Some [(''topic'', JStr ''x'')]\<rparr>
          [ex_patients, ex_note]) = [ex_patients, ex_note] \<and>
   fst (add_document Add_raises_on_existing ex_embed
          \<lparr>req_id = ''note1'', req_document = ''rewritten'', req_metadata = Some [(''topic'', JStr ''x'')]\<rparr>
          [ex_patients, ex_note]) = Inl HTTP_500 \<and>
   snd (add_document Add_ignores_existing ex_embed
          \<lparr>req_id = ''note1'', req_document = ''rewritten'', req_metadata = Some [(''topic'', JStr ''x'')]\<rparr>
          [ex_patients, ex_note]) = [ex_patients, ex_note]"
proof -
  let ?r = "\<lparr>req_id = ''note1'', req_document = ''rewritten'', req_metadata = Some [(''topic'', JStr ''x'')]\<rparr>"
  have a: "req_id ?r \<in> set (ids_of [ex_patients, ex_note])"
    by (simp add: ids_of_def ex_patients_def ex_note_def)
  from a
    add_document_never_replaces[of ?r "[ex_patients, ex_note]" Add_raises_on_existing ex_embed]
    add_document_never_replaces[of ?r "[ex_patients, ex_note]" Add_ignores_existing ex_embed]
  show ?thesis by simp
qed

section \<open>Registering a table\<close>

lemma encode_named:
  "map_of s ''table_name'' = Some (JStr n) \<Longrightarrow> n \<noteq> [] \<Longrightarrow>
   encode render extra s = Inr (table_id n, render s, (''table_name'', JStr n) # extra s)"
  by (simp add: encode_def)

lemma add_table_to_registry_named:
  "map_of s ''table_name'' = Some (JStr n) \<Longrightarrow> n \<noteq> [] \<Longrightarrow>
   add_table_to_registry render extra em s c
     = (Inr True, coll_upsert (schema_entry render extra em s n) c)"
  by (simp add: add_table_to_registry_def encode_named schema_entry_def)

lemma add_table_collection:
  "snd (add_table reg request c) = snd (reg (table_schema request) c)"
  by (simp add: add_table_def split: prod.splits sum.splits option.splits)

text \<open>
  Claim C6. A schema whose name is missing or empty is rejected by the encoder with
  \<open>InvalidSchemaError\<close>; \<^verbatim>\<open>add_table_to_registry\<close> surfaces that error and stores
  nothing, and the \<^verbatim>\<open>add_table\<close> handler answers with a failure, not with success.
\<close>

theorem nameless_schema_rejected:
  assumes "map_of s ''table_name'' = None \<or> map_of s ''table_name'' = Some (JStr [])"
  shows "encode render extra s = Inl InvalidSchemaError \<and>
     add_table_to_registry render extra em s c = (Inl InvalidSchemaError, c) \<and>
     add_table (add_table_to_registry render extra em) \<lparr>table_schema = s\<rparr> c = (Inl HTTP_500, c)"
  using assms by (auto simp: encode_def add_table_to_registry_def add_table_def)

theorem nameless_schema_rejected_witness:
  "map_of [(''columns'', JArr [JStr ''id''])] ''table_name'' = None \<and>
   encode ex_render ex_extra [(''columns'', JArr [JStr ''id''])] = Inl InvalidSchemaError \<and>
   add_table_to_registry ex_render ex_extra ex_embed [(''columns'', JArr [JStr ''id''])] [ex_patients]
     = (Inl InvalidSchemaError, [ex_patients]) \<and>
   map_of [(''table_name'', JStr '''')] ''table_name'' = Some (JStr []) \<and>
   add_table (add_table_to_registry ex_render ex_extra ex_embed)
       \<lparr>table_schema = [(''table_name'', JStr '''')]\<rparr> [ex_patients] = (Inl HTTP_500, [ex_patients])"
proof -
  have a: "map_of [(''columns'', JArr [JStr ''id''])] ''table_name'' = None" by simp
  have b: "map_of [(''table_name'', JStr '''')] ''table_name'' = Some (JStr [])" by simp
  from a b
    nameless_schema_rejected[of "[(''columns'', JArr [JStr ''id''])]" ex_render ex_extra ex_embed "[ex_patients]"]
    nameless_schema_rejected[of "[(''table_name'', JStr '''')]" ex_render ex_extra ex_embed "[ex_patients]"]
  show ?thesis by simp
qed

text \<open>
  Claim C7. Registering a schema named \<open>n\<close> twice in succession succeeds both times and
  the second call changes nothing: the collection, and so its count, is the same after
  the second call as after the first, and it holds exactly one record with the id
  \<^verbatim>\<open>"table_" + n\<close>. The second call overwrites: registering another schema \<open>s'\<close> of the
  same name leaves the count as it is and the one record of that id is the one made
  from \<open>s'\<close>.
\<close>

theorem add_table_idempotent_replace:
  assumes wf: "wf_collection c"
    and s: "map_of s ''table_name'' = Some (JStr n)" "n \<noteq> []"
    and s': "map_of s' ''table_name'' = Some (JStr n)"
  shows "let reg = add_table_to_registry render extra em;
             c1 = snd (reg s c); c2 = snd (reg s c1); c3 = snd (reg s' c1)
         in fst (reg s c) = Inr True \<and> fst (reg s c1) = Inr True \<and>
            c2 = c1 \<and> coll_count c2 = coll_count c1 \<and>
            length (coll_get [''table_'' @ n] c2) = 1 \<and>
            coll_count c3 = coll_count c1 \<and>
            coll_get [''table_'' @ n] c3 = [schema_entry render extra em s' n]"
proof -
  let ?e = "schema_entry render extra em s n" and ?e' = "schema_entry render extra em s' n"
  have id: "entry_id ?e = table_id n" "entry_id ?e' = table_id n"
    by (simp_all add: schema_entry_def)
  have 1: "add_table_to_registry render extra em s c = (Inr True, coll_upsert ?e c)"
    using s by (rule add_table_to_registry_named)
  have 2: "add_table_to_registry render extra em s (coll_upsert ?e c) = (Inr True, coll_upsert ?e c)"
    using add_table_to_registry_named[OF s, of render extra em "coll_upsert ?e c"]
      upsert_upsert[of ?e ?e c] by simp
  have 3: "add_table_to_registry render extra em s' (coll_upsert ?e c) = (Inr True, coll_upsert ?e' c)"
    using add_table_to_registry_named[OF s' s(2), of render extra em "coll_upsert ?e c"]
      upsert_upsert[of ?e' ?e c] id by simp
  have g: "coll_get [table_id n] (coll_upsert ?e c) = [?e]"
    using get_upsert[OF wf, of ?e] id by simp
  have g': "coll_get [table_id n] (coll_upsert ?e' c) = [?e']"
    using get_upsert[OF wf, of ?e'] id by simp
  have cnt: "coll_count (coll_upsert ?e' c) = coll_count (coll_upsert ?e c)"
    using id by (simp add: coll_upsert_def coll_count_def)
  have t: "''table_'' @ n = table_id n" by (simp add: table_id_def)
  show ?thesis
    unfolding Let_def t using 1 2 3 g g' cnt by simp
qed

theorem add_table_idempotent_replace_witness:
  "wf_collection [ex_patients] \<and>
   snd (add_table_to_registry ex_render ex_extra ex_embed ex_visits_schema [ex_patients])
     = [ex_patients, ex_visits] \<and>
   snd (add_table_to_registry ex_render ex_extra ex_embed ex_visits_schema [ex_patients, ex_visits])
     = [ex_patients, ex_visits] \<and>
   coll_count [ex_patients, ex_visits] = 2 \<and>
   length (coll_get [''table_visits''] [ex_patients, ex_visits]) = 1"
proof -
  have wf: "wf_collection [ex_patients]"
    by (simp add: wf_collection_def ids_of_def)
  have s: "map_of ex_visits_schema ''table_name'' = Some (JStr ''visits'')" "''visits'' \<noteq> []"
    by (simp_all add: ex_visits_schema_def)
  have c1: "snd (add_table_to_registry ex_render ex_extra ex_embed ex_visits_schema [ex_patients])
      = [ex_patients, ex_visits]"
    by (simp add: add_table_to_registry_def encode_def ex_visits_schema_def table_id_def
        coll_upsert_def ids_of_def ex_patients_def ex_visits_def ex_render_def ex_extra_def
        ex_embed_def)
  from add_table_idempotent_replace[OF wf s s(1), of ex_render ex_extra ex_embed] c1 wf
  show ?thesis
    by (auto simp: Let_def coll_count_def)
qed

section \<open>Reinitializing\<close>

text \<open>Initialization adds nothing but records under canonical ids.\<close>

lemma initialize_registry_entries:
  "e \<in> set (snd (initialize_registry render extra em canon c)) \<Longrightarrow>
   e \<in> set c \<or> entry_id e \<in> set (canonical_ids render extra canon)"
proof (induction canon arbitrary: c)
  case Nil
  then show ?case by simp
next
  case (Cons s ss)
  show ?case
  proof (cases "encode render extra s")
    case (Inl err)
    with Cons.prems show ?thesis by simp
  next
    case (Inr t)
    obtain i d md where t: "t = (i, d, md)" by (cases t) auto
    have ci: "i \<in> set (canonical_ids render extra (s # ss))"
      using Inr t by (simp add: canonical_ids_def)
    have sub: "set (canonical_ids render extra ss) \<subseteq> set (canonical_ids render extra (s # ss))"
      by (simp add: canonical_ids_def)
    show ?thesis
    proof (cases "i \<in> set (ids_of c)")
      case True
      with Cons.prems Inr t have "e \<in> set (snd (initialize_registry render extra em ss c))"
        by simp
      from Cons.IH[OF this] sub show ?thesis by auto
    next
      case False
      let ?n = "\<lparr>entry_id = i, entry_document = d, entry_metadata = Some md, entry_embedding = em d\<rparr>"
      from False Cons.prems Inr t
      have "e \<in> set (snd (initialize_registry render extra em ss (coll_upsert ?n c)))"
        by simp
      from Cons.IH[OF this]
      have "e \<in> set (coll_upsert ?n c) \<or> entry_id e \<in> set (canonical_ids render extra ss)" .
      moreover have "set (coll_upsert ?n c) = insert ?n (set c)"
        using False by (simp add: set_upsert_absent)
      ultimately show ?thesis using ci sub by auto
    qed
  qed
qed

text \<open>
  What the clear step's filter \<^verbatim>\<open>{"table_name": {"$ne": ""}}\<close> matches. Under both
  readings of \<^verbatim>\<open>$ne\<close> a non-empty string \<^verbatim>\<open>table_name\<close> matches and the empty string
  does not; the readings part on a record with no \<^verbatim>\<open>table_name\<close> key.
\<close>

lemma where_ne_named:
  "map_of m ''table_name'' = Some (JStr t) \<Longrightarrow> t \<noteq> [] \<Longrightarrow>
   where_ne sem ''table_name'' [] (Some m)"
  by (cases sem) simp_all

lemma where_ne_empty_name:
  "map_of m ''table_name'' = Some (JStr []) \<Longrightarrow> \<not> where_ne sem ''table_name'' [] (Some m)"
  by (cases sem) simp_all

lemma where_ne_unkeyed:
  "md = None \<or> (\<exists>m. md = Some m \<and> map_of m ''table_name'' = None) \<Longrightarrow>
   where_ne sem ''table_name'' [] md \<longleftrightarrow> sem = Ne_complements_eq"
  by (cases sem) auto

lemma clear_keeps_unkeyed_if_ne_requires_key:
  "e \<in> set c \<Longrightarrow>
   entry_metadata e = None \<or> (\<exists>m. entry_metadata e = Some m \<and> map_of m ''table_name'' = None) \<Longrightarrow>
   e \<in> set (coll_delete_where (where_ne Ne_requires_key ''table_name'' []) c)"
  by (simp add: coll_delete_where_def where_ne_unkeyed)

lemma clear_drops_unkeyed_if_ne_complements_eq:
  "entry_metadata e = None \<or> (\<exists>m. entry_metadata e = Some m \<and> map_of m ''table_name'' = None) \<Longrightarrow>
   e \<notin> set (coll_delete_where (where_ne Ne_complements_eq ''table_name'' []) c)"
  by (simp add: coll_delete_where_def where_ne_unkeyed)

lemma upsert_member: "e \<in> set (coll_upsert e c)"
  by (auto simp: coll_upsert_def ids_of_def)

lemma reinitialize_registry_collection:
  "snd (reinitialize_registry sem init c)
   = snd (init (coll_delete_where (where_ne sem ''table_name'' []) c))"
  by (simp add: reinitialize_registry_def Let_def split: prod.splits sum.splits)

lemma clear_named_gone:
  assumes wf: "wf_collection c" and e: "e \<in> set c"
    and md: "entry_metadata e = Some m" "map_of m ''table_name'' = Some (JStr t)" "t \<noteq> []"
  shows "entry_id e \<notin> set (ids_of (coll_delete_where (where_ne sem ''table_name'' []) c))"
proof
  assume "entry_id e \<in> set (ids_of (coll_delete_where (where_ne sem ''table_name'' []) c))"
  then obtain x where x: "x \<in> set c" "entry_id x = entry_id e"
    and keep: "\<not> where_ne sem ''table_name'' [] (entry_metadata x)"
    by (auto simp: ids_of_def coll_delete_where_def)
  from wf e x have "x = e"
    by (auto simp: wf_collection_def ids_of_def distinct_map inj_on_def)
  with keep md where_ne_named[OF md(2,3), of sem] show False by simp
qed

text \<open>
  Claim C1, as stated, fails: the clear step is not collection-wide. A custom document
  whose metadata carries an empty \<^verbatim>\<open>table_name\<close> is not matched by
  \<^verbatim>\<open>{"table_name": {"$ne": ""}}\<close> under either reading of \<^verbatim>\<open>$ne\<close>: it survives the
  clear step, it is not canonical, and it is still there, unchanged, after
  \<^verbatim>\<open>reinitialize_registry\<close>.
\<close>

theorem reinitialize_keeps_empty_table_name:
  "coll_delete_where (where_ne Ne_requires_key ''table_name'' '''') [ex_patients, ex_note] = [ex_note] \<and>
   coll_delete_where (where_ne Ne_complements_eq ''table_name'' '''') [ex_patients, ex_note] = [ex_note] \<and>
   ''note1'' \<notin> set (canonical_ids ex_render ex_extra ex_canon) \<and>
   get_document ''note1''
     (snd (reinitialize_registry Ne_requires_key
             (initialize_registry ex_render ex_extra ex_embed ex_canon) [ex_patients, ex_note]))
     = Inr (''note1'', ''scratch'', Some [(''table_name'', JStr '''')]) \<and>
   get_document ''note1''
     (snd (reinitialize_registry Ne_complements_eq
             (initialize_registry ex_render ex_extra ex_embed ex_canon) [ex_patients, ex_note]))
     = Inr (''note1'', ''scratch'', Some [(''table_name'', JStr '''')])"
  by (simp add: canonical_ids_def reinitialize_registry_def coll_delete_where_def ex_patients_def
      ex_note_def ex_canon_def ex_patients_schema_def encode_def table_id_def ids_of_def
      coll_upsert_def get_document_def coll_get_def ex_render_def ex_extra_def ex_embed_def
      coll_count_def)

text \<open>
  Claim C1, amended. \<^verbatim>\<open>reinitialize_registry\<close> clears the records that carry a
  non-empty string \<^verbatim>\<open>table_name\<close> before repopulating; it does not clear the whole
  collection. Let the initialization add nothing but records under canonical ids, and
  let the collection hold one record per id. Then every record afterwards either has a
  canonical id or is a record from before that the clear filter did not match; and every
  record from before with a non-empty string \<^verbatim>\<open>table_name\<close> and a non-canonical id
  (such as the record of a non-canonical table added before) is gone, \<^verbatim>\<open>get_document\<close>
  of its id answering 404.
\<close>

theorem reinitialize_clears_named_entries:
  assumes wf: "wf_collection c"
    and init: "\<And>c0 x. x \<in> set (snd (init c0)) \<Longrightarrow> x \<in> set c0 \<or> entry_id x \<in> set canonical"
  shows
   "(\<forall>e \<in> set (snd (reinitialize_registry sem init c)).
        entry_id e \<in> set canonical \<or>
        (e \<in> set c \<and> \<not> where_ne sem ''table_name'' [] (entry_metadata e))) \<and>
    (\<forall>e \<in> set c. \<forall>m t.
        entry_metadata e = Some m \<and> map_of m ''table_name'' = Some (JStr t) \<and> t \<noteq> [] \<and>
        entry_id e \<notin> set canonical \<longrightarrow>
        get_document (entry_id e) (snd (reinitialize_registry sem init c)) = Inl HTTP_404)"
proof (intro conjI ballI allI impI)
  fix e
  assume "e \<in> set (snd (reinitialize_registry sem init c))"
  then have "e \<in> set (coll_delete_where (where_ne sem ''table_name'' []) c) \<or> entry_id e \<in> set canonical"
    unfolding reinitialize_registry_collection by (rule init)
  then show "entry_id e \<in> set canonical \<or>
        (e \<in> set c \<and> \<not> where_ne sem ''table_name'' [] (entry_metadata e))"
    by (auto simp: coll_delete_where_def)
next
  fix e m t
  assume e: "e \<in> set c"
    and h: "entry_metadata e = Some m \<and> map_of m ''table_name'' = Some (JStr t) \<and> t \<noteq> [] \<and>
        entry_id e \<notin> set canonical"
  let ?c1 = "coll_delete_where (where_ne sem ''table_name'' []) c"
  have gone: "entry_id e \<notin> set (ids_of ?c1)"
    using clear_named_gone[OF wf e, of m t sem] h by blast
  have "entry_id e \<notin> set (ids_of (snd (init ?c1)))"
  proof
    assume "entry_id e \<in> set (ids_of (snd (init ?c1)))"
    then obtain x where x: "x \<in> set (snd (init ?c1))" "entry_id x = entry_id e"
      by (auto simp: ids_of_def)
    from init[OF x(1)] x(2) h have "x \<in> set ?c1" by auto
    then have "entry_id x \<in> set (ids_of ?c1)" by (simp add: ids_of_def)
    with x(2) gone show False by simp
  qed
  then show "get_document (entry_id e) (snd (reinitialize_registry sem init c)) = Inl HTTP_404"
    by (simp add: get_document_404_iff reinitialize_registry_collection)
qed

theorem reinitialize_clears_named_entries_witness:
  "wf_collection [ex_patients, ex_note, ex_visits] \<and>
   snd (add_table (add_table_to_registry ex_render ex_extra ex_embed)
          \<lparr>table_schema = ex_visits_schema\<rparr> [ex_patients, ex_note])
     = [ex_patients, ex_note, ex_visits] \<and>
   ''table_visits'' \<notin> set (canonical_ids ex_render ex_extra ex_canon) \<and>
   get_document ''table_visits''
     (snd (reinitialize_registry Ne_requires_key
             (initialize_registry ex_render ex_extra ex_embed ex_canon)
             [ex_patients, ex_note, ex_visits])) = Inl HTTP_404"
proof -
  have wf: "wf_collection [ex_patients, ex_note, ex_visits]"
    by (simp add: wf_collection_def ids_of_def ex_patients_def ex_visits_def ex_note_def)
  have added: "snd (add_table (add_table_to_registry ex_render ex_extra ex_embed)
          \<lparr>table_schema = ex_visits_schema\<rparr> [ex_patients, ex_note])
     = [ex_patients, ex_note, ex_visits]"
    by (simp add: add_table_def add_table_to_registry_def encode_def ex_visits_schema_def
        table_id_def coll_upsert_def ids_of_def ex_patients_def ex_note_def ex_visits_def
        ex_render_def ex_extra_def ex_embed_def)
  have canon: "canonical_ids ex_render ex_extra ex_canon = [''table_patients'']"
    by (simp add: canonical_ids_def encode_def ex_canon_def ex_patients_schema_def table_id_def)
  have md: "entry_metadata ex_visits = Some [(''table_name'', JStr ''visits'')]"
    "map_of [(''table_name'', JStr ''visits'')] ''table_name'' = Some (JStr ''visits'')"
    "''visits'' \<noteq> []"
    by (simp_all add: ex_visits_def)
  have nc: "entry_id ex_visits \<notin> set (canonical_ids ex_render ex_extra ex_canon)"
    by (simp add: canon ex_visits_def)
  have id: "entry_id ex_visits = ''table_visits''" by (simp add: ex_visits_def)
  have g: "get_document (entry_id ex_visits)
     (snd (reinitialize_registry Ne_requires_key
             (initialize_registry ex_render ex_extra ex_embed ex_canon)
             [ex_patients, ex_note, ex_visits])) = Inl HTTP_404"
  proof (rule reinitialize_clears_named_entries[
        where init = "initialize_registry ex_render ex_extra ex_embed ex_canon"
          and canonical = "canonical_ids ex_render ex_extra ex_canon"
          and sem = Ne_requires_key,
        THEN conjunct2, rule_format,
        where m = "[(''table_name'', JStr ''visits'')]" and t = "''visits''"])
    show "wf_collection [ex_patients, ex_note, ex_visits]" by (rule wf)
    show "\<And>c0 x. x \<in> set (snd (initialize_registry ex_render ex_extra ex_embed ex_canon c0))
      \<Longrightarrow> x \<in> set c0 \<or> entry_id x \<in> set (canonical_ids ex_render ex_extra ex_canon)"
      by (rule initialize_registry_entries)
    show "ex_visits \<in> set [ex_patients, ex_note, ex_visits]" by simp
    show "entry_metadata ex_visits = Some [(''table_name'', JStr ''visits'')] \<and>
      map_of [(''table_name'', JStr ''visits'')] ''table_name'' = Some (JStr ''visits'') \<and>
      ''visits'' \<noteq> [] \<and>
      entry_id ex_visits \<notin> set (canonical_ids ex_render ex_extra ex_canon)"
      using md nc by simp
  qed
  from wf added nc g show ?thesis unfolding id by simp
qed

text \<open>
  The same for the registry manager as modelled: after \<^verbatim>\<open>add_table\<close> of a non-canonical
  schema named \<open>n\<close> and a reinitialize, \<^verbatim>\<open>get_document\<close> of \<^verbatim>\<open>"table_" + n\<close> answers 404.
\<close>

lemma reinitialize_after_add_table:
  assumes wf: "wf_collection c"
    and s: "map_of s ''table_name'' = Some (JStr n)" "n \<noteq> []"
    and nc: "table_id n \<notin> set (canonical_ids render extra canon)"
  shows "get_document (table_id n)
          (snd (reinitialize_registry sem (initialize_registry render extra em canon)
             (snd (add_table (add_table_to_registry render extra em) \<lparr>table_schema = s\<rparr> c))))
          = Inl HTTP_404"
proof -
  let ?e = "schema_entry render extra em s n"
  let ?c1 = "coll_upsert ?e c"
  let ?c2 = "coll_delete_where (where_ne sem ''table_name'' []) ?c1"
  have c1: "snd (add_table (add_table_to_registry render extra em) \<lparr>table_schema = s\<rparr> c) = ?c1"
    using s by (simp add: add_table_collection add_table_to_registry_named)
  have wf1: "wf_collection ?c1" using wf by (rule wf_upsert)
  have md: "entry_metadata ?e = Some ((''table_name'', JStr n) # extra s)"
    "map_of ((''table_name'', JStr n) # extra s) ''table_name'' = Some (JStr n)"
    by (simp_all add: schema_entry_def)
  have id: "entry_id ?e = table_id n" by (simp add: schema_entry_def)
  have gone: "table_id n \<notin> set (ids_of ?c2)"
    using clear_named_gone[OF wf1 upsert_member md s(2), of sem] id by simp
  have "table_id n \<notin> set (ids_of (snd (initialize_registry render extra em canon ?c2)))"
  proof
    assume "table_id n \<in> set (ids_of (snd (initialize_registry render extra em canon ?c2)))"
    then obtain x where x: "x \<in> set (snd (initialize_registry render extra em canon ?c2))"
      "entry_id x = table_id n"
      by (auto simp: ids_of_def)
    from initialize_registry_entries[OF x(1)] x(2) nc have "x \<in> set ?c2" by auto
    then have "entry_id x \<in> set (ids_of ?c2)" by (simp add: ids_of_def)
    with x(2) gone show False by simp
  qed
  then show ?thesis
    by (simp add: c1 get_document_404_iff reinitialize_registry_collection)
qed

end
